theory Spec2Isabelle
  imports Main "HOL-Library.Word"
begin

section \<open>Data model of package auction\<close>

text \<open>
  Go strings and byte slices are sequences of bytes. A text is a \<^typ>\<open>string\<close>
  (a list of 8-bit characters), binary data is a list of \<^typ>\<open>8 word\<close>.
  A \<^verbatim>\<open>*big.Int\<close> is a pointer: \<open>None\<close> is the nil pointer, \<open>Some i\<close> points to
  the unbounded integer \<open>i\<close>.
\<close>

type_synonym byte = "8 word"
type_synonym bigint = "int option"
type_synonym hash = "byte list"

text \<open>
  The struct \<^verbatim>\<open>SignedBid\<close>. \<^verbatim>\<open>common.Address\<close> is \<^verbatim>\<open>[20]byte\<close>; it is
  modelled as a byte list, and the predicate \<open>address_ok\<close> says that it has the
  20 bytes every Go value of that type has. \<^verbatim>\<open>hexutil.Bytes\<close> is a byte slice; the
  nil slice and the empty slice are both \<open>[]\<close>.
\<close>

record SignedBid =
  AmountWei :: bigint
  L1Block :: bigint
  Address :: "byte list"
  Signature :: "byte list"

definition zeroAddr :: "byte list" where
  "zeroAddr = replicate 20 0"

definition zeroBid :: SignedBid where
  "zeroBid = \<lparr>AmountWei = None, L1Block = None, Address = zeroAddr, Signature = []\<rparr>"

definition address_ok :: "SignedBid \<Rightarrow> bool" where
  "address_ok b = (length (Address b) = 20)"

subsection \<open>Decimal text of a big integer\<close>

definition digit_char :: "nat \<Rightarrow> char" where
  "digit_char d = ''0123456789'' ! d"

function nat_decimal :: "nat \<Rightarrow> string" where
  "nat_decimal n =
     (if n < 10 then [digit_char n]
      else nat_decimal (n div 10) @ [digit_char (n mod 10)])"
  by pat_completeness auto
termination
  by (relation "measure id") auto

declare nat_decimal.simps [simp del]

text \<open>
  \<^verbatim>\<open>(*big.Int).String()\<close> is \<^verbatim>\<open>x.Text(10)\<close>: the text \<^verbatim>\<open><nil>\<close> for the nil pointer,
  and otherwise the decimal digits, after a minus sign when the number is negative.
\<close>

definition int_decimal :: "int \<Rightarrow> string" where
  "int_decimal i = (if i < 0 then CHR ''-'' # nat_decimal (nat (- i)) else nat_decimal (nat i))"

definition big_String :: "bigint \<Rightarrow> string" where
  "big_String x = (case x of None \<Rightarrow> ''<nil>'' | Some i \<Rightarrow> int_decimal i)"

subsection \<open>The bid digest\<close>

text \<open>
  \<^verbatim>\<open>getDataHash\<close> formats both numbers with \<^verbatim>\<open>fmt.Sprintf("%s%s", ...)\<close> and hashes
  the bytes of the result. \<open>bidData\<close> is the local variable \<^verbatim>\<open>data\<close>. The hash
  function \<^verbatim>\<open>crypto.Keccak256Hash\<close> belongs to go-ethereum and is a parameter.
\<close>

definition bidData :: "bigint \<Rightarrow> bigint \<Rightarrow> string" where
  "bidData amountWei l1Block = big_String amountWei @ big_String l1Block"

definition getDataHash :: "(string \<Rightarrow> hash) \<Rightarrow> bigint \<Rightarrow> bigint \<Rightarrow> hash" where
  "getDataHash keccak256 amountWei l1Block = keccak256 (bidData amountWei l1Block)"

subsection \<open>Signing and verifying\<close>

text \<open>
  The functions \<^verbatim>\<open>crypto.Keccak256Hash\<close>, \<^verbatim>\<open>crypto.Sign\<close>, \<^verbatim>\<open>crypto.SigToPub\<close> and
  \<^verbatim>\<open>crypto.PubkeyToAddress\<close> belong to go-ethereum, and \<^verbatim>\<open>privateKey.PublicKey\<close> to
  the Go standard library. They are the fields of a record that every function of this
  package takes as its first argument; \<open>'k\<close> is the type of private keys, \<open>'p\<close> of
  public keys, \<open>'e\<close> of the library's error values. A call that returns
  \<^verbatim>\<open>(value, error)\<close> is a sum: \<open>Inl\<close> the error, \<open>Inr\<close> the value.
\<close>

record ('k, 'p, 'e) crypto =
  Keccak256Hash :: "string \<Rightarrow> hash"
  Sign :: "hash \<Rightarrow> 'k \<Rightarrow> 'e + byte list"
  SigToPub :: "hash \<Rightarrow> byte list \<Rightarrow> 'e + 'p"
  PubkeyToAddress :: "'p \<Rightarrow> byte list"
  PublicKey :: "'k \<Rightarrow> 'p"

definition getAddressFromSig :: "('k, 'p, 'e) crypto \<Rightarrow> byte list \<Rightarrow> hash \<Rightarrow> 'e + byte list" where
  "getAddressFromSig c signature hash =
     (case SigToPub c hash signature of
        Inl err \<Rightarrow> Inl err
      | Inr sigPublicKey \<Rightarrow> Inr (PubkeyToAddress c sigPublicKey))"


definition Verify :: "('k, 'p, 'e) crypto \<Rightarrow> SignedBid \<Rightarrow> bool" where
  "Verify c b =
     (let hash = getDataHash (Keccak256Hash c) (AmountWei b) (L1Block b) in
      case SigToPub c hash (Signature b) of
        Inl err \<Rightarrow> False
      | Inr sigPublicKey \<Rightarrow> PubkeyToAddress c sigPublicKey = Address b)"

text \<open>
  A small stand-in for the library, used to run the functions above on concrete inputs:
  a key is one byte, its public key is the same byte, a signature is the key followed by
  the hash, and recovery checks that the hash is the signed one.
\<close>

definition toy_crypto :: "(byte, byte, unit) crypto" where
  "toy_crypto =
     \<lparr>Keccak256Hash = map (\<lambda>ch. of_char ch),
      Sign = (\<lambda>h k. Inr (k # h)),
      SigToPub = (\<lambda>h s. case s of [] \<Rightarrow> Inl () | p # r \<Rightarrow> if r = h then Inr p else Inl ()),
      PubkeyToAddress = replicate 20,
      PublicKey = (\<lambda>k. k)\<rparr>"



section \<open>The wire format\<close>

text \<open>
  \<^verbatim>\<open>EncodeSignedBid\<close> is \<^verbatim>\<open>json.Marshal\<close> and \<^verbatim>\<open>DecodeSignedBid\<close> is
  \<^verbatim>\<open>json.Unmarshal\<close>, applied to the struct with its field tags. What they do with this
  struct is fixed by the Go library \<^verbatim>\<open>encoding/json\<close> and by the methods of the three
  field types: \<^verbatim>\<open>MarshalJSON\<close> and \<^verbatim>\<open>UnmarshalJSON\<close> of \<^verbatim>\<open>big.Int\<close>, and
  \<^verbatim>\<open>MarshalText\<close> and \<^verbatim>\<open>UnmarshalJSON\<close> of \<^verbatim>\<open>common.Address\<close> and
  \<^verbatim>\<open>hexutil.Bytes\<close>. This section writes that behaviour out.
\<close>

subsection \<open>Encoding\<close>

text \<open>
  A \<^verbatim>\<open>*big.Int\<close> is written as \<^verbatim>\<open>null\<close> for the nil pointer and as a decimal number
  otherwise. An address and a byte slice are written as a JSON string: \<^verbatim>\<open>0x\<close> and
  two lower-case hexadecimal digits for each byte, the high four bits first. Such a text
  has no character that a JSON string escapes. The object has the four fields in the
  order of the struct, with no white space. \<^verbatim>\<open>json.Marshal\<close> returns no error for this
  struct, so \<^verbatim>\<open>log.Fatalf\<close> is not reached.
\<close>

definition big_MarshalJSON :: "bigint \<Rightarrow> string" where
  "big_MarshalJSON x = (case x of None \<Rightarrow> ''null'' | Some i \<Rightarrow> int_decimal i)"

definition hex_char :: "nat \<Rightarrow> char" where
  "hex_char d = ''0123456789abcdef'' ! d"

definition hex_byte :: "byte \<Rightarrow> string" where
  "hex_byte b = [hex_char (unat b div 16), hex_char (unat b mod 16)]"

definition hex_Encode :: "byte list \<Rightarrow> string" where
  "hex_Encode bs = concat (map hex_byte bs)"

definition hexutil_MarshalText :: "byte list \<Rightarrow> string" where
  "hexutil_MarshalText bs = ''0x'' @ hex_Encode bs"

definition json_quote :: "string \<Rightarrow> string" where
  "json_quote s = CHR 0x22 # s @ [CHR 0x22]"

definition EncodeSignedBid :: "SignedBid \<Rightarrow> string" where
  "EncodeSignedBid bid =
     ''{'' @ json_quote ''amountWei'' @ '':'' @ big_MarshalJSON (AmountWei bid) @
     '','' @ json_quote ''l1Block'' @ '':'' @ big_MarshalJSON (L1Block bid) @
     '','' @ json_quote ''address'' @ '':'' @ json_quote (hexutil_MarshalText (Address bid)) @
     '','' @ json_quote ''signature'' @ '':'' @ json_quote (hexutil_MarshalText (Signature bid)) @
     ''}''"

subsection \<open>Scanning JSON text\<close>

text \<open>
  \<^verbatim>\<open>json.Unmarshal\<close> first checks that the whole input is one JSON value, with white
  space allowed around every token, and only then decodes. Here the text is first cut
  into tokens. A string token keeps the bytes between its quotes as they are, escapes
  included, and a number token keeps its text: the methods of the field types receive
  these bytes.
\<close>

datatype token =
  TLBrace | TRBrace | TLBrack | TRBrack | TColon | TComma
  | TString string | TNumber string | TTrue | TFalse | TNull

definition is_space :: "char \<Rightarrow> bool" where
  "is_space c = (c = CHR 0x20 \<or> c = CHR 0x09 \<or> c = CHR 0x0D \<or> c = CHR 0x0A)"

definition is_digit :: "char \<Rightarrow> bool" where
  "is_digit c = (48 \<le> (of_char c :: nat) \<and> (of_char c :: nat) \<le> 57)"

definition is_hex :: "char \<Rightarrow> bool" where
  "is_hex c =
     (is_digit c \<or> (97 \<le> (of_char c :: nat) \<and> (of_char c :: nat) \<le> 102)
      \<or> (65 \<le> (of_char c :: nat) \<and> (of_char c :: nat) \<le> 70))"

text \<open>The characters that may follow a backslash, apart from \<^verbatim>\<open>u\<close>.\<close>

definition is_escape :: "char \<Rightarrow> bool" where
  "is_escape e =
     (e = CHR 0x22 \<or> e = CHR 0x5C \<or> e = CHR ''/'' \<or> e = CHR ''b'' \<or> e = CHR ''f'' \<or>
      e = CHR ''n'' \<or> e = CHR ''r'' \<or> e = CHR ''t'')"

text \<open>
  The rest of a string after its opening quote: the bytes up to the closing quote, and
  what follows it. A control character, an unknown escape and a missing closing quote
  are errors.
\<close>

fun lex_string :: "string \<Rightarrow> (string \<times> string) option" where
  "lex_string [] = None"
| "lex_string (c # cs) =
     (if c = CHR 0x22 then Some ([], cs)
      else if c = CHR 0x5C then
        (case cs of
           [] \<Rightarrow> None
         | e # cs1 \<Rightarrow>
             if is_escape e
             then map_option (\<lambda>(raw, rest). (c # e # raw, rest)) (lex_string cs1)
             else if e = CHR ''u'' then
               (case cs1 of
                  h1 # h2 # h3 # h4 # cs2 \<Rightarrow>
                    if is_hex h1 \<and> is_hex h2 \<and> is_hex h3 \<and> is_hex h4
                    then map_option (\<lambda>(raw, rest). (c # e # h1 # h2 # h3 # h4 # raw, rest))
                           (lex_string cs2)
                    else None
                | _ \<Rightarrow> None)
             else None)
      else if (of_char c :: nat) < 32 then None
      else map_option (\<lambda>(raw, rest). (c # raw, rest)) (lex_string cs))"

text \<open>
  A number: an optional minus sign; a zero, or a digit from 1 to 9 and more digits; an
  optional fraction, a point and at least one digit; an optional exponent, \<^verbatim>\<open>e\<close> or
  \<^verbatim>\<open>E\<close>, an optional sign and at least one digit.
\<close>

definition lex_exp :: "string \<Rightarrow> string \<Rightarrow> (string \<times> string) option" where
  "lex_exp acc s =
     (case s of
        [] \<Rightarrow> Some (acc, s)
      | e # s1 \<Rightarrow>
          if e = CHR ''e'' \<or> e = CHR ''E'' then
            (let sg = (case s1 of [] \<Rightarrow> [] | g # _ \<Rightarrow> if g = CHR ''+'' \<or> g = CHR ''-'' then [g] else []);
                 s2 = drop (length sg) s1;
                 ds = takeWhile is_digit s2
             in if ds = [] then None else Some (acc @ e # sg @ ds, dropWhile is_digit s2))
          else Some (acc, s))"

definition lex_frac :: "string \<Rightarrow> string \<Rightarrow> (string \<times> string) option" where
  "lex_frac acc s =
     (case s of
        [] \<Rightarrow> Some (acc, s)
      | p # s1 \<Rightarrow>
          if p = CHR ''.'' then
            (let ds = takeWhile is_digit s1
             in if ds = [] then None else lex_exp (acc @ p # ds) (dropWhile is_digit s1))
          else lex_exp acc s)"

definition lex_number :: "string \<Rightarrow> (string \<times> string) option" where
  "lex_number s =
     (let sg = (case s of [] \<Rightarrow> [] | g # _ \<Rightarrow> if g = CHR ''-'' then [g] else []);
          s1 = drop (length sg) s
      in case s1 of
           [] \<Rightarrow> None
         | d # s2 \<Rightarrow>
             if d = CHR ''0'' then lex_frac (sg @ [d]) s2
             else if is_digit d
             then lex_frac (sg @ d # takeWhile is_digit s2) (dropWhile is_digit s2)
             else None)"

text \<open>Both scanners consume input, which is what makes the token loop terminate.\<close>

lemma lex_string_shorter: "lex_string s = Some (raw, rest) \<Longrightarrow> length rest < length s"
proof (induction "length s" arbitrary: s raw rest rule: less_induct)
  case less
  note IH = less.hyps
  from less.prems obtain c cs where s: "s = c # cs"
    by (cases s) auto
  show ?case
  proof (cases "c = CHR 0x22")
    case True
    with less.prems s show ?thesis by simp
  next
    case notq: False
    show ?thesis
    proof (cases "c = CHR 0x5C")
      case True
      with less.prems s notq obtain e cs1 where cs: "cs = e # cs1"
        by (cases cs) auto
      show ?thesis
      proof (cases "is_escape e")
        case True
        with less.prems s cs notq \<open>c = CHR 0x5C\<close> obtain raw' where "lex_string cs1 = Some (raw', rest)"
          by auto
        from IH [OF _ this] s cs show ?thesis by simp
      next
        case False
        with less.prems s cs notq \<open>c = CHR 0x5C\<close> obtain h1 h2 h3 h4 cs2 raw'
          where "cs1 = h1 # h2 # h3 # h4 # cs2" and "lex_string cs2 = Some (raw', rest)"
          by (auto split: if_splits list.splits)
        with IH [of cs2 raw' rest] s cs show ?thesis by simp
      qed
    next
      case False
      with less.prems s notq obtain raw' where "lex_string cs = Some (raw', rest)"
        by (auto split: if_splits)
      from IH [OF _ this] s show ?thesis by simp
    qed
  qed
qed


lemma lex_exp_shorter: "lex_exp acc s = Some (raw, rest) \<Longrightarrow> length rest \<le> length s"
proof -
  have drop_le: "length (dropWhile is_digit (drop n t)) \<le> length t" for n and t :: string
    using length_dropWhile_le [of is_digit "drop n t"] by simp
  assume "lex_exp acc s = Some (raw, rest)"
  then show ?thesis
    using drop_le
    by (cases s) (auto simp: lex_exp_def Let_def le_SucI split: if_splits)
qed

lemma lex_frac_shorter: "lex_frac acc s = Some (raw, rest) \<Longrightarrow> length rest \<le> length s"
proof (cases s)
  case Nil
  assume "lex_frac acc s = Some (raw, rest)"
  with Nil show ?thesis by (simp add: lex_frac_def)
next
  case (Cons p s1)
  assume a: "lex_frac acc s = Some (raw, rest)"
  show ?thesis
  proof (cases "p = CHR ''.''")
    case True
    with a Cons have "lex_exp (acc @ p # takeWhile is_digit s1) (dropWhile is_digit s1) = Some (raw, rest)"
      by (auto simp: lex_frac_def Let_def split: if_splits)
    from lex_exp_shorter [OF this] have "length rest \<le> length s1"
      using length_dropWhile_le [of is_digit s1] by simp
    with Cons show ?thesis by simp
  next
    case False
    with a Cons have "lex_exp acc s = Some (raw, rest)"
      by (simp add: lex_frac_def)
    then show ?thesis by (rule lex_exp_shorter)
  qed
qed

lemma lex_number_shorter:
  assumes "lex_number s = Some (raw, rest)"
  shows "length rest < length s"
proof -
  define sg where "sg = (case s of [] \<Rightarrow> [] | g # _ \<Rightarrow> if g = CHR ''-'' then [g] else [])"
  define s1 where "s1 = drop (length sg) s"
  have s1_le: "length s1 \<le> length s"
    by (simp add: s1_def)
  from assms obtain d s2 where s1: "s1 = d # s2"
    by (cases s1) (auto simp: lex_number_def Let_def sg_def s1_def)
  have "length rest \<le> length s2"
  proof (cases "d = CHR ''0''")
    case True
    with assms s1 have "lex_frac (sg @ [d]) s2 = Some (raw, rest)"
      by (simp add: lex_number_def Let_def sg_def [symmetric] s1_def [symmetric])
    then show ?thesis by (rule lex_frac_shorter)
  next
    case False
    with assms s1 have
      "lex_frac (sg @ d # takeWhile is_digit s2) (dropWhile is_digit s2) = Some (raw, rest)"
      by (simp add: lex_number_def Let_def sg_def [symmetric] s1_def [symmetric] split: if_splits)
    from lex_frac_shorter [OF this] show ?thesis
      using length_dropWhile_le [of is_digit s2] by simp
  qed
  with s1 s1_le show ?thesis by simp
qed

function json_tokens :: "string \<Rightarrow> token list option" where
  "json_tokens [] = Some []"
| "json_tokens (c # cs) =
     (if is_space c then json_tokens cs
      else if c = CHR ''{'' then map_option ((#) TLBrace) (json_tokens cs)
      else if c = CHR ''}'' then map_option ((#) TRBrace) (json_tokens cs)
      else if c = CHR ''['' then map_option ((#) TLBrack) (json_tokens cs)
      else if c = CHR '']'' then map_option ((#) TRBrack) (json_tokens cs)
      else if c = CHR '':'' then map_option ((#) TColon) (json_tokens cs)
      else if c = CHR '','' then map_option ((#) TComma) (json_tokens cs)
      else if c = CHR 0x22 then
        (case lex_string cs of
           None \<Rightarrow> None
         | Some (raw, rest) \<Rightarrow> map_option ((#) (TString raw)) (json_tokens rest))
      else if c = CHR ''-'' \<or> is_digit c then
        (case lex_number (c # cs) of
           None \<Rightarrow> None
         | Some (raw, rest) \<Rightarrow> map_option ((#) (TNumber raw)) (json_tokens rest))
      else if c = CHR ''t'' \<and> take 3 cs = ''rue'' then map_option ((#) TTrue) (json_tokens (drop 3 cs))
      else if c = CHR ''f'' \<and> take 4 cs = ''alse'' then map_option ((#) TFalse) (json_tokens (drop 4 cs))
      else if c = CHR ''n'' \<and> take 3 cs = ''ull'' then map_option ((#) TNull) (json_tokens (drop 3 cs))
      else None)"
  by pat_completeness auto
termination
proof (relation "measure length")
  fix c :: char and cs raw rest x2 and x :: "string \<times> string"
  assume "lex_string cs = Some x2" and "(raw, rest) = x2"
  then have "lex_string cs = Some (raw, rest)" by simp
  from lex_string_shorter [OF this] show "(rest, c # cs) \<in> measure length" by simp
next
  fix c :: char and cs raw rest x2 and x :: "string \<times> string"
  assume "lex_number (c # cs) = Some x2" and "(raw, rest) = x2"
  then have "lex_number (c # cs) = Some (raw, rest)" by simp
  from lex_number_shorter [OF this] show "(rest, c # cs) \<in> measure length" by simp
qed auto

declare json_tokens.simps [simp del]


subsection \<open>Parsing\<close>

text \<open>
  The tokens are read by a machine with a stack, one frame for every array or object
  that is open, as the library's scanner has. The states have the scanner's names. More
  than \<open>maxNestingDepth\<close> open arrays and objects are an error. The value parsed keeps
  the members of an object in their order, duplicates included.
\<close>

datatype json =
  JNull | JBool bool | JNumber string | JString string
  | JArray "json list" | JObject "(string \<times> json) list"

datatype frame =
  ArrayFrame "json list"
  | ObjectFrame "(string \<times> json) list"
  | MemberFrame "(string \<times> json) list" string

datatype pmode =
  BeginValue | BeginValueOrEmpty | BeginString | BeginStringOrEmpty
  | ObjectKey | EndValue | EndTop json

definition maxNestingDepth :: nat where
  "maxNestingDepth = 10000"

fun put_value :: "json \<Rightarrow> frame list \<Rightarrow> (frame list \<times> pmode) option" where
  "put_value v [] = Some ([], EndTop v)"
| "put_value v (ArrayFrame vs # st) = Some (ArrayFrame (vs @ [v]) # st, EndValue)"
| "put_value v (MemberFrame ms k # st) = Some (ObjectFrame (ms @ [(k, v)]) # st, EndValue)"
| "put_value v (ObjectFrame ms # st) = None"

fun begin_value :: "token \<Rightarrow> frame list \<Rightarrow> (frame list \<times> pmode) option" where
  "begin_value TLBrace st =
     (if length st < maxNestingDepth then Some (ObjectFrame [] # st, BeginStringOrEmpty) else None)"
| "begin_value TLBrack st =
     (if length st < maxNestingDepth then Some (ArrayFrame [] # st, BeginValueOrEmpty) else None)"
| "begin_value (TString s) st = put_value (JString s) st"
| "begin_value (TNumber s) st = put_value (JNumber s) st"
| "begin_value TTrue st = put_value (JBool True) st"
| "begin_value TFalse st = put_value (JBool False) st"
| "begin_value TNull st = put_value JNull st"
| "begin_value _ st = None"

fun begin_string :: "token \<Rightarrow> frame list \<Rightarrow> (frame list \<times> pmode) option" where
  "begin_string (TString k) (ObjectFrame ms # st) = Some (MemberFrame ms k # st, ObjectKey)"
| "begin_string _ _ = None"

fun end_value :: "token \<Rightarrow> frame list \<Rightarrow> (frame list \<times> pmode) option" where
  "end_value TComma (ArrayFrame vs # st) = Some (ArrayFrame vs # st, BeginValue)"
| "end_value TRBrack (ArrayFrame vs # st) = put_value (JArray vs) st"
| "end_value TComma (ObjectFrame ms # st) = Some (ObjectFrame ms # st, BeginString)"
| "end_value TRBrace (ObjectFrame ms # st) = put_value (JObject ms) st"
| "end_value _ _ = None"

fun step :: "pmode \<Rightarrow> token \<Rightarrow> frame list \<Rightarrow> (frame list \<times> pmode) option" where
  "step BeginValue t st = begin_value t st"
| "step BeginValueOrEmpty t st =
     (if t = TRBrack then end_value t st else begin_value t st)"
| "step BeginString t st = begin_string t st"
| "step BeginStringOrEmpty t st =
     (if t = TRBrace then end_value t st else begin_string t st)"
| "step ObjectKey t st = (if t = TColon then Some (st, BeginValue) else None)"
| "step EndValue t st = end_value t st"
| "step (EndTop v) t st = None"

fun json_parse :: "pmode \<Rightarrow> frame list \<Rightarrow> token list \<Rightarrow> json option" where
  "json_parse m st [] = (case m of EndTop v \<Rightarrow> Some v | _ \<Rightarrow> None)"
| "json_parse m st (t # ts) =
     (case step m t st of
        None \<Rightarrow> None
      | Some (st', m') \<Rightarrow> json_parse m' st' ts)"

definition json_scan :: "string \<Rightarrow> json option" where
  "json_scan text =
     (case json_tokens text of None \<Rightarrow> None | Some ts \<Rightarrow> json_parse BeginValue [] ts)"

subsection \<open>Decoding the fields\<close>

datatype decode_error =
  ErrJSONSyntax | ErrJSONType | ErrBigInt
  | ErrNonString | ErrMissingPrefix | ErrOddLength | ErrSyntax | ErrLength

text \<open>
  A field of type \<^verbatim>\<open>*big.Int\<close>: the value \<^verbatim>\<open>null\<close> makes the pointer nil. Any other
  value is handed to \<^verbatim>\<open>(*big.Int).UnmarshalJSON\<close>, which reads the bytes of the value
  as a number with an optional sign and takes nothing else. Of the number tokens it
  accepts those with no fraction and no exponent; a string, a boolean, an array and an
  object are errors.
\<close>

definition digit_val :: "char \<Rightarrow> nat" where
  "digit_val c = of_char c - 48"

definition parse_nat :: "string \<Rightarrow> nat option" where
  "parse_nat ds =
     (if ds \<noteq> [] \<and> list_all is_digit ds
      then Some (foldl (\<lambda>a c. 10 * a + digit_val c) 0 ds) else None)"

definition big_UnmarshalText :: "string \<Rightarrow> int option" where
  "big_UnmarshalText raw =
     (case raw of
        [] \<Rightarrow> None
      | c # cs \<Rightarrow>
          if c = CHR ''-'' then map_option (\<lambda>n. - int n) (parse_nat cs)
          else map_option int (parse_nat raw))"

definition big_UnmarshalJSON :: "json \<Rightarrow> decode_error + bigint" where
  "big_UnmarshalJSON v =
     (case v of
        JNull \<Rightarrow> Inr None
      | JNumber raw \<Rightarrow>
          (case big_UnmarshalText raw of None \<Rightarrow> Inl ErrBigInt | Some i \<Rightarrow> Inr (Some i))
      | _ \<Rightarrow> Inl ErrBigInt)"

text \<open>
  Package \<^verbatim>\<open>hexutil\<close>. \<open>fromHexChar\<close> is the value of a hexadecimal digit, of either
  case; \<open>hex_Decode\<close> asks for \<open>is_hex\<close> before it takes the value. \<^verbatim>\<open>checkText\<close>
  lets the empty text pass, and otherwise wants the prefix \<^verbatim>\<open>0x\<close> or \<^verbatim>\<open>0X\<close> and an
  even number of characters after it. \<^verbatim>\<open>UnmarshalFixedText\<close>, used for the address, also
  wants the number of bytes to be the length of the array; \<^verbatim>\<open>Bytes.UnmarshalText\<close>
  takes any number of bytes. Both \<^verbatim>\<open>UnmarshalJSON\<close> methods refuse a value that is not a
  string, \<^verbatim>\<open>null\<close> too, and read the bytes between the quotes without unescaping them.
\<close>

definition fromHexChar :: "char \<Rightarrow> nat" where
  "fromHexChar c =
     (if is_digit c then of_char c - 48
      else if 97 \<le> (of_char c :: nat) then of_char c - 87
      else of_char c - 55)"

fun hex_Decode :: "string \<Rightarrow> byte list option" where
  "hex_Decode [] = Some []"
| "hex_Decode [c] = None"
| "hex_Decode (h # l # cs) =
     (if is_hex h \<and> is_hex l
      then map_option ((#) (word_of_nat (16 * fromHexChar h + fromHexChar l))) (hex_Decode cs)
      else None)"

definition has0xPrefix :: "string \<Rightarrow> bool" where
  "has0xPrefix input =
     (case input of
        z # x # _ \<Rightarrow> z = CHR ''0'' \<and> (x = CHR ''x'' \<or> x = CHR ''X'')
      | _ \<Rightarrow> False)"

definition checkText :: "string \<Rightarrow> decode_error + string" where
  "checkText input =
     (if input = [] then Inr []
      else if has0xPrefix input then
        (if odd (length (drop 2 input)) then Inl ErrOddLength else Inr (drop 2 input))
      else Inl ErrMissingPrefix)"

definition UnmarshalFixedText :: "nat \<Rightarrow> string \<Rightarrow> decode_error + byte list" where
  "UnmarshalFixedText n input =
     (case checkText input of
        Inl err \<Rightarrow> Inl err
      | Inr raw \<Rightarrow>
          if length raw div 2 \<noteq> n then Inl ErrLength
          else (case hex_Decode raw of None \<Rightarrow> Inl ErrSyntax | Some bs \<Rightarrow> Inr bs))"

definition Bytes_UnmarshalText :: "string \<Rightarrow> decode_error + byte list" where
  "Bytes_UnmarshalText input =
     (case checkText input of
        Inl err \<Rightarrow> Inl err
      | Inr raw \<Rightarrow> (case hex_Decode raw of None \<Rightarrow> Inl ErrSyntax | Some bs \<Rightarrow> Inr bs))"

definition Address_UnmarshalJSON :: "json \<Rightarrow> decode_error + byte list" where
  "Address_UnmarshalJSON v =
     (case v of JString raw \<Rightarrow> UnmarshalFixedText 20 raw | _ \<Rightarrow> Inl ErrNonString)"

definition Bytes_UnmarshalJSON :: "json \<Rightarrow> decode_error + byte list" where
  "Bytes_UnmarshalJSON v =
     (case v of JString raw \<Rightarrow> Bytes_UnmarshalText raw | _ \<Rightarrow> Inl ErrNonString)"

subsection \<open>Matching keys with fields\<close>

text \<open>
  A key of the object names a field when, unquoted, it is the field's tag up to the
  case of letters. The library folds names rune by rune: an ASCII letter to its capital,
  and the two runes beyond ASCII that fold to an ASCII letter, the long s (U+017F) to
  \<^verbatim>\<open>S\<close> and the Kelvin sign (U+212A) to \<^verbatim>\<open>K\<close>. \<open>fold_key\<close> gives the folded key as
  character codes, and \<open>None\<close> for a key with any other rune beyond ASCII, which is
  no field's tag. The long s is the bytes C5 BF in UTF-8 and the Kelvin sign E2 84 AA.
\<close>

definition fold_ascii :: "nat \<Rightarrow> nat" where
  "fold_ascii n = (if 97 \<le> n \<and> n \<le> 122 then n - 32 else n)"

definition fold_rune :: "nat \<Rightarrow> nat option" where
  "fold_rune r =
     (if r < 128 then Some (fold_ascii r)
      else if r = 0x17F then Some 83
      else if r = 0x212A then Some 75
      else None)"

definition unescape :: "char \<Rightarrow> nat" where
  "unescape e =
     (if e = CHR ''b'' then 8 else if e = CHR ''f'' then 12 else if e = CHR ''n'' then 10
      else if e = CHR ''r'' then 13 else if e = CHR ''t'' then 9 else of_char e)"

fun fold_key :: "string \<Rightarrow> nat list option" where
  "fold_key [] = Some []"
| "fold_key (c # cs) =
     (if c = CHR 0x5C then
        (case cs of
           [] \<Rightarrow> None
         | e # cs1 \<Rightarrow>
             if e = CHR ''u'' then
               (case cs1 of
                  h1 # h2 # h3 # h4 # cs2 \<Rightarrow>
                    (case fold_rune (4096 * fromHexChar h1 + 256 * fromHexChar h2
                                      + 16 * fromHexChar h3 + fromHexChar h4) of
                       None \<Rightarrow> None
                     | Some r \<Rightarrow> map_option ((#) r) (fold_key cs2))
                | _ \<Rightarrow> None)
             else map_option ((#) (fold_ascii (unescape e))) (fold_key cs1))
      else if (of_char c :: nat) < 128 then map_option ((#) (fold_ascii (of_char c))) (fold_key cs)
      else if c = CHR 0xC5 then
        (case cs of
           d # cs1 \<Rightarrow> if d = CHR 0xBF then map_option ((#) 83) (fold_key cs1) else None
         | _ \<Rightarrow> None)
      else if c = CHR 0xE2 then
        (case cs of
           d1 # d2 # cs1 \<Rightarrow>
             if d1 = CHR 0x84 \<and> d2 = CHR 0xAA then map_option ((#) 75) (fold_key cs1) else None
         | _ \<Rightarrow> None)
      else None)"

datatype field = FAmountWei | FL1Block | FAddress | FSignature

definition fold_name :: "string \<Rightarrow> nat list" where
  "fold_name name = map (\<lambda>c. fold_ascii (of_char c)) name"

definition field_of :: "string \<Rightarrow> field option" where
  "field_of key =
     (case fold_key key of
        None \<Rightarrow> None
      | Some f \<Rightarrow>
          if f = fold_name ''amountWei'' then Some FAmountWei
          else if f = fold_name ''l1Block'' then Some FL1Block
          else if f = fold_name ''address'' then Some FAddress
          else if f = fold_name ''signature'' then Some FSignature
          else None)"

subsection \<open>Decoding a bid\<close>

text \<open>
  The members of the object are taken in their order. A member whose key names no field
  is skipped; the value of any other member is stored in its field, and the first error
  ends the decoding. Decoding starts from the zero struct, so a field with no member
  keeps its zero value. The text \<^verbatim>\<open>null\<close> leaves the struct as it is, with no error,
  and any other value that is not an object is an error. \<^verbatim>\<open>DecodeSignedBid\<close> logs the
  error and returns it.
\<close>

fun set_field :: "field \<Rightarrow> json \<Rightarrow> SignedBid \<Rightarrow> decode_error + SignedBid" where
  "set_field FAmountWei v bid =
     (case big_UnmarshalJSON v of Inl err \<Rightarrow> Inl err | Inr x \<Rightarrow> Inr (bid\<lparr>AmountWei := x\<rparr>))"
| "set_field FL1Block v bid =
     (case big_UnmarshalJSON v of Inl err \<Rightarrow> Inl err | Inr x \<Rightarrow> Inr (bid\<lparr>L1Block := x\<rparr>))"
| "set_field FAddress v bid =
     (case Address_UnmarshalJSON v of Inl err \<Rightarrow> Inl err | Inr a \<Rightarrow> Inr (bid\<lparr>Address := a\<rparr>))"
| "set_field FSignature v bid =
     (case Bytes_UnmarshalJSON v of Inl err \<Rightarrow> Inl err | Inr s \<Rightarrow> Inr (bid\<lparr>Signature := s\<rparr>))"

fun decode_object :: "(string \<times> json) list \<Rightarrow> SignedBid \<Rightarrow> decode_error + SignedBid" where
  "decode_object [] bid = Inr bid"
| "decode_object ((key, v) # ms) bid =
     (case field_of key of
        None \<Rightarrow> decode_object ms bid
      | Some f \<Rightarrow>
          (case set_field f v bid of
             Inl err \<Rightarrow> Inl err
           | Inr bid' \<Rightarrow> decode_object ms bid'))"

definition json_Unmarshal :: "string \<Rightarrow> decode_error + SignedBid" where
  "json_Unmarshal text =
     (case json_scan text of
        None \<Rightarrow> Inl ErrJSONSyntax
      | Some JNull \<Rightarrow> Inr zeroBid
      | Some (JObject ms) \<Rightarrow> decode_object ms zeroBid
      | Some _ \<Rightarrow> Inl ErrJSONType)"

definition DecodeSignedBid :: "string \<Rightarrow> decode_error + SignedBid" where
  "DecodeSignedBid jsonData =
     (case json_Unmarshal jsonData of Inl err \<Rightarrow> Inl err | Inr bid \<Rightarrow> Inr bid)"

subsection \<open>What the decoder accepts, said without the decoder\<close>

text \<open>
  An amount and a block are accepted as \<^verbatim>\<open>null\<close> or as a number that is an integer
  literal, negative ones included. An address is accepted as a string of \<^verbatim>\<open>0x\<close> or
  \<^verbatim>\<open>0X\<close> and exactly 40 hexadecimal digits. A signature is accepted as the empty string
  or as a string of that prefix and any even number of hexadecimal digits. A text is
  accepted when it is the JSON value \<^verbatim>\<open>null\<close>, or a JSON object in which every member
  whose key names a field has a value accepted for that field.
\<close>

definition int_literal :: "string \<Rightarrow> bool" where
  "int_literal raw =
     (case raw of
        [] \<Rightarrow> False
      | c # cs \<Rightarrow> if c = CHR ''-'' then cs \<noteq> [] \<and> list_all is_digit cs else list_all is_digit raw)"

definition hex_text :: "string \<Rightarrow> bool" where
  "hex_text raw = (has0xPrefix raw \<and> even (length raw) \<and> list_all is_hex (drop 2 raw))"

fun field_accepts :: "field \<Rightarrow> json \<Rightarrow> bool" where
  "field_accepts FAmountWei v =
     (case v of JNull \<Rightarrow> True | JNumber raw \<Rightarrow> int_literal raw | _ \<Rightarrow> False)"
| "field_accepts FL1Block v =
     (case v of JNull \<Rightarrow> True | JNumber raw \<Rightarrow> int_literal raw | _ \<Rightarrow> False)"
| "field_accepts FAddress v =
     (case v of JString raw \<Rightarrow> hex_text raw \<and> length raw = 42 | _ \<Rightarrow> False)"
| "field_accepts FSignature v =
     (case v of JString raw \<Rightarrow> raw = [] \<or> hex_text raw | _ \<Rightarrow> False)"

definition member_ok :: "string \<times> json \<Rightarrow> bool" where
  "member_ok m = (case field_of (fst m) of None \<Rightarrow> True | Some f \<Rightarrow> field_accepts f (snd m))"

definition decode_ok :: "string \<Rightarrow> bool" where
  "decode_ok text =
     (case json_scan text of
        None \<Rightarrow> False
      | Some JNull \<Rightarrow> True
      | Some (JObject ms) \<Rightarrow> list_all member_ok ms
      | Some _ \<Rightarrow> False)"

subsection \<open>Notions used in the proofs about the wire format\<close>

text \<open>
  A character that ends a number token; a character that a string token takes as it
  is; the token and the JSON value that the encoder's text of a \<^verbatim>\<open>*big.Int\<close> is read as.
\<close>

definition no_number_char :: "char \<Rightarrow> bool" where
  "no_number_char c = (\<not> is_digit c \<and> c \<noteq> CHR ''.'' \<and> c \<noteq> CHR ''e'' \<and> c \<noteq> CHR ''E'')"

definition plain :: "char \<Rightarrow> bool" where
  "plain c = (c \<noteq> CHR 0x22 \<and> c \<noteq> CHR 0x5C \<and> \<not> (of_char c :: nat) < 32)"

definition big_token :: "bigint \<Rightarrow> token" where
  "big_token x = (case x of None \<Rightarrow> TNull | Some i \<Rightarrow> TNumber (int_decimal i))"

definition big_json :: "bigint \<Rightarrow> json" where
  "big_json x = (case x of None \<Rightarrow> JNull | Some i \<Rightarrow> JNumber (int_decimal i))"

section \<open>Package listener\<close>

text \<open>
  The fields of \<^verbatim>\<open>Listener\<close> that the methods read and write:
  \<^verbatim>\<open>currentBlockNum\<close>, a \<^verbatim>\<open>uint64\<close>, and \<^verbatim>\<open>currentAuction\<close>, a pointer to the
  running auction (\<open>None\<close> is nil). The type \<^verbatim>\<open>auction.RelayAuction\<close> is not among the
  source files, so the auction is a value of a type parameter \<open>'a\<close> and its methods
  are function arguments. The channels are the lists of values sent on them.
\<close>

record 'a Listener =
  currentBlockNum :: "64 word"
  currentAuction :: "'a option"

definition NewListener :: "'a Listener" where
  "NewListener = \<lparr>currentBlockNum = 0, currentAuction = None\<rparr>"

subsection \<open>The polling loop\<close>

text \<open>
  One iteration of \<^verbatim>\<open>listenForBlocks\<close> waits in a \<^verbatim>\<open>select\<close>: either the context is
  done, or the ticker fires and \<^verbatim>\<open>ethClient.BlockNumber\<close> is called, which gives a
  height or an error (\<open>None\<close>). The list of these events is the input of the loop. The
  loop ends by returning, by \<^verbatim>\<open>os.Exit\<close>, or it is still waiting when the list is used up.
\<close>

datatype tick = CtxDone | TickerFired "64 word option"

datatype loop_end = Returned | ProcessExit int | Waiting

text \<open>\<^verbatim>\<open>MustGetBlockNum\<close>: \<open>Inl 1\<close> is \<^verbatim>\<open>os.Exit(1)\<close>.\<close>

definition MustGetBlockNum :: "64 word option \<Rightarrow> int + 64 word" where
  "MustGetBlockNum r = (case r of None \<Rightarrow> Inl 1 | Some blockNumber \<Rightarrow> Inr blockNumber)"

text \<open>
  The conversion \<^verbatim>\<open>int64(x)\<close> of a \<^verbatim>\<open>uint64\<close> keeps the bits and reads them as two's
  complement; \<^verbatim>\<open>big.NewInt\<close> makes that number a big integer.
\<close>

definition int64 :: "64 word \<Rightarrow> int" where
  "int64 x = sint x"

text \<open>
  The result is the list of numbers sent on \<^verbatim>\<open>NewBlockChan\<close>, the listener afterwards,
  and how the loop ended. A send is taken to be received.
\<close>

fun listenForBlocks :: "tick list \<Rightarrow> 'a Listener \<Rightarrow> int list \<times> 'a Listener \<times> loop_end" where
  "listenForBlocks [] l = ([], l, Waiting)"
| "listenForBlocks (CtxDone # ts) l = ([], l, Returned)"
| "listenForBlocks (TickerFired r # ts) l =
     (case MustGetBlockNum r of
        Inl code \<Rightarrow> ([], l, ProcessExit code)
      | Inr newBlockNum \<Rightarrow>
          if newBlockNum > currentBlockNum l then
            (case listenForBlocks ts (l\<lparr>currentBlockNum := newBlockNum\<rparr>) of
               (sent, l', e) \<Rightarrow> (int64 (currentBlockNum l) # sent, l', e))
          else listenForBlocks ts l)"

text \<open>A run of polls that all succeed.\<close>

definition polls :: "64 word list \<Rightarrow> tick list" where
  "polls hs = map (\<lambda>h. TickerFired (Some h)) hs"

text \<open>
  In the words of the specification: the heights, among those polled, that are strictly
  greater than the last observed height, which then becomes the height read.
\<close>

fun new_heights :: "64 word \<Rightarrow> 64 word list \<Rightarrow> 64 word list" where
  "new_heights lastObserved [] = []"
| "new_heights lastObserved (h # hs) =
     (if h > lastObserved then h # new_heights h hs else new_heights lastObserved hs)"

subsection \<open>Running one auction per new block\<close>

text \<open>
  \<^verbatim>\<open>FacilitateRelayAuction\<close> waits in a \<^verbatim>\<open>select\<close> for the auction's result or for
  \<^verbatim>\<open>time.After(auctionPeriod + 1*time.Second)\<close>; which of the two happens is the input
  \<open>race\<close>. \<open>newRelayAuction\<close> is the value of \<^verbatim>\<open>auction.NewRelayAuction(...)\<close>. The
  result is what the call did (it started the auction, it sent a bid on
  \<^verbatim>\<open>AuctionWonChan\<close>), the listener afterwards, and \<open>Some code\<close> when it ended in
  \<^verbatim>\<open>os.Exit(code)\<close>, which runs no deferred function.
\<close>

datatype race = AuctionResult SignedBid | WatchdogFired

datatype effect = AuctionStarted | AuctionWon SignedBid

definition FacilitateRelayAuction ::
  "'a \<Rightarrow> race \<Rightarrow> 'a Listener \<Rightarrow> effect list \<times> 'a Listener \<times> int option" where
  "FacilitateRelayAuction newRelayAuction r l =
     (let l1 = l\<lparr>currentAuction := Some newRelayAuction\<rparr> in
      case r of
        AuctionResult bid \<Rightarrow>
          if Address bid = zeroAddr
          then ([AuctionStarted], l1\<lparr>currentAuction := None\<rparr>, None)
          else ([AuctionStarted, AuctionWon bid], l1\<lparr>currentAuction := None\<rparr>, None)
      | WatchdogFired \<Rightarrow> ([AuctionStarted], l1, Some 1))"

text \<open>
  \<^verbatim>\<open>processNewBlocks\<close> waits for the context to be done or for a value on
  \<^verbatim>\<open>NewBlockChan\<close>, which it drops, and then runs one auction.
\<close>

datatype signal = Cancelled | NewBlockSignal race

fun processNewBlocks ::
  "'a \<Rightarrow> signal list \<Rightarrow> 'a Listener \<Rightarrow> effect list \<times> 'a Listener \<times> loop_end" where
  "processNewBlocks newRelayAuction [] l = ([], l, Waiting)"
| "processNewBlocks newRelayAuction (Cancelled # ss) l = ([], l, Returned)"
| "processNewBlocks newRelayAuction (NewBlockSignal r # ss) l =
     (case FacilitateRelayAuction newRelayAuction r l of
        (out, l', Some code) \<Rightarrow> (out, l', ProcessExit code)
      | (out, l', None) \<Rightarrow>
          (case processNewBlocks newRelayAuction ss l' of
             (out', l'', e) \<Rightarrow> (out @ out', l'', e)))"

subsection \<open>Submitting and reading bids\<close>

text \<open>
  \<^verbatim>\<open>(*big.Int).Uint64()\<close> gives the low 64 bits of the absolute value. On a nil
  pointer it dereferences nil, which panics.
\<close>

definition big_Uint64 :: "int \<Rightarrow> 64 word" where
  "big_Uint64 i = word_of_int \<bar>i\<bar>"

text \<open>
  What a call of \<^verbatim>\<open>SubmitBid\<close> gives its caller: the nil error, an error with the
  message the code formats, or a panic.
\<close>

datatype submit_result = NilError | Error string | Panic

text \<open>
  \<open>auctionSubmitBid\<close> is the method \<^verbatim>\<open>SubmitBid\<close> of the running auction, whose
  result, if it has one, is dropped.
\<close>

definition SubmitBid ::
  "(SignedBid \<Rightarrow> 'a \<Rightarrow> 'a) \<Rightarrow> SignedBid \<Rightarrow> 'a Listener \<Rightarrow> submit_result \<times> 'a Listener" where
  "SubmitBid auctionSubmitBid bid l =
     (case currentAuction l of
        None \<Rightarrow> (Error ''no auction in progress'', l)
      | Some a \<Rightarrow>
          (case L1Block bid of
             None \<Rightarrow> (Panic, l)
           | Some t \<Rightarrow>
               if big_Uint64 t \<noteq> currentBlockNum l
               then (Error ''bid is for a different block'', l)
               else (NilError, l\<lparr>currentAuction := Some (auctionSubmitBid bid a)\<rparr>)))"

text \<open>\<open>auctionGetCurrentBid\<close> is the method \<^verbatim>\<open>GetCurrentBid\<close> of the running auction.\<close>

definition GetCurrentBid ::
  "('a \<Rightarrow> SignedBid) \<Rightarrow> 'a Listener \<Rightarrow> (SignedBid \<times> bool) \<times> 'a Listener" where
  "GetCurrentBid auctionGetCurrentBid l =
     (case currentAuction l of
        None \<Rightarrow> ((zeroBid, False), l)
      | Some a \<Rightarrow> ((auctionGetCurrentBid a, True), l))"

section \<open>Properties of the bid digest\<close>

lemma nat_decimal_small: "n < 10 \<Longrightarrow> nat_decimal n = [digit_char n]"
  by (simp add: nat_decimal.simps)

lemma nat_decimal_large:
  "10 \<le> n \<Longrightarrow> nat_decimal n = nat_decimal (n div 10) @ [digit_char (n mod 10)]"
  by (subst nat_decimal.simps) simp

lemma bidData_1_23: "bidData (Some 1) (Some 23) = ''123''"
  by (simp add: bidData_def big_String_def int_decimal_def nat_decimal_small nat_decimal_large
      digit_char_def)

lemma bidData_12_3: "bidData (Some 12) (Some 3) = ''123''"
  by (simp add: bidData_def big_String_def int_decimal_def nat_decimal_small nat_decimal_large
      digit_char_def)

text \<open>
  C1. The specification asks for an injective digest: distinct pairs of amount and
  target block never give the same pre-hash bytes. In the code the two decimal texts are
  concatenated with nothing between them, so amount 1 for block 23 and amount 12 for
  block 3 both give the bytes \<^verbatim>\<open>123\<close>, and every hash function maps them to the
  same digest.
\<close>

theorem getDataHash_collision:
  "(Some 1, Some 23) \<noteq> (Some 12 :: bigint, Some 3 :: bigint) \<and>
   bidData (Some 1) (Some 23) = bidData (Some 12) (Some 3) \<and>
   (\<forall>keccak256. getDataHash keccak256 (Some 1) (Some 23) = getDataHash keccak256 (Some 12) (Some 3))"
  by (simp add: getDataHash_def bidData_1_23 bidData_12_3)

section \<open>Properties of signing and verifying\<close>

lemma getAddressFromSig_Inr:
  "getAddressFromSig c s h = Inr a \<longleftrightarrow>
     (\<exists>pub. SigToPub c h s = Inr pub \<and> PubkeyToAddress c pub = a)"
  by (auto simp: getAddressFromSig_def split: sum.splits)





text \<open>
  C6. \<^verbatim>\<open>Verify\<close> gives a boolean for every bid. It is true exactly when the library
  recovers a public key from the bid's signature over the recomputed hash and the
  address of that key is the bid's address; when recovery fails, as on a malformed
  signature, it is false.
\<close>

theorem Verify_iff:
  "(Verify c b \<longleftrightarrow>
      (\<exists>pub. SigToPub c (getDataHash (Keccak256Hash c) (AmountWei b) (L1Block b)) (Signature b)
                = Inr pub \<and>
             PubkeyToAddress c pub = Address b)) \<and>
   (\<forall>err. SigToPub c (getDataHash (Keccak256Hash c) (AmountWei b) (L1Block b)) (Signature b)
            = Inl err \<longrightarrow> \<not> Verify c b)"
  by (auto simp: Verify_def split: sum.splits)

theorem Verify_iff_witness:
  "\<not> Verify toy_crypto \<lparr>AmountWei = Some 5, L1Block = Some 10, Address = replicate 20 7,
                         Signature = []\<rparr> \<and>
   SigToPub toy_crypto (getDataHash (Keccak256Hash toy_crypto) (Some 5) (Some 10)) [] = Inl () \<and>
   Verify toy_crypto \<lparr>AmountWei = None, L1Block = None, Address = replicate 20 9,
                       Signature = 9 # Keccak256Hash toy_crypto ''<nil><nil>''\<rparr>"
proof -
  let ?bad = "\<lparr>AmountWei = Some 5, L1Block = Some 10, Address = replicate 20 7,
               Signature = []\<rparr>"
  let ?good = "\<lparr>AmountWei = None, L1Block = None, Address = replicate 20 9,
                Signature = 9 # Keccak256Hash toy_crypto ''<nil><nil>''\<rparr>"
  have fails: "SigToPub toy_crypto (getDataHash (Keccak256Hash toy_crypto) (Some 5) (Some 10)) []
                 = Inl ()"
    by (simp add: toy_crypto_def)
  have recovered:
    "SigToPub toy_crypto (getDataHash (Keccak256Hash toy_crypto) None None) (Signature ?good)
       = Inr 9 \<and> PubkeyToAddress toy_crypto 9 = Address ?good"
    by (simp add: toy_crypto_def getDataHash_def bidData_def big_String_def)
  from Verify_iff [of toy_crypto ?bad] fails have "\<not> Verify toy_crypto ?bad"
    by simp
  moreover from Verify_iff [of toy_crypto ?good] recovered have "Verify toy_crypto ?good"
    by simp
  ultimately show ?thesis
    using fails by simp
qed

section \<open>Properties of the polling loop\<close>

lemma int64_small:
  assumes "x < 2 ^ 63"
  shows "int64 x = uint x"
proof -
  from assms have "uint x < 2 ^ 63"
    by (simp add: word_less_alt)
  moreover have "- (2 ^ 63) \<le> uint x"
    by (rule order_trans [of _ 0]) simp_all
  ultimately show ?thesis
    by (simp add: int64_def sint_uint signed_take_bit_int_eq_self_iff)
qed

lemma set_new_heights: "set (new_heights cur hs) \<subseteq> set hs"
  by (induction hs arbitrary: cur) auto

lemma listenForBlocks_polls:
  "listenForBlocks (polls hs) l =
     (map int64 (butlast (currentBlockNum l # new_heights (currentBlockNum l) hs)),
      l\<lparr>currentBlockNum := last (currentBlockNum l # new_heights (currentBlockNum l) hs)\<rparr>,
      Waiting)"
proof (induction hs arbitrary: l)
  case Nil
  show ?case
    by (simp add: polls_def)
next
  case (Cons h hs)
  have step: "listenForBlocks (polls hs) l' =
     (map int64 (butlast (currentBlockNum l' # new_heights (currentBlockNum l') hs)),
      l'\<lparr>currentBlockNum := last (currentBlockNum l' # new_heights (currentBlockNum l') hs)\<rparr>,
      Waiting)" for l' :: "'a Listener"
    by (rule Cons.IH)
  show ?case
  proof (cases "h > currentBlockNum l")
    case True
    then show ?thesis
      using step [of "l\<lparr>currentBlockNum := h\<rparr>"]
      by (simp add: polls_def MustGetBlockNum_def)
  next
    case False
    then show ?thesis
      using step [of l]
      by (simp add: polls_def MustGetBlockNum_def)
  qed
qed

text \<open>
  C2, as amended. Starting from any last observed height, a run of successful polls
  sends one number for each poll that reads a height strictly greater than the last
  observed one, and nothing for the other polls. Each number sent is the height that was
  last observed before that poll, and the last observed height ends as the last strictly
  greater height read. This is stated for heights below \<open>2 ^ 63\<close>, where the
  conversion to \<^verbatim>\<open>int64\<close> keeps the value.
\<close>

theorem listenForBlocks_new_blocks:
  assumes "\<forall>h \<in> set (currentBlockNum l # hs). h < 2 ^ 63"
  shows "listenForBlocks (polls hs) l =
           (map uint (butlast (currentBlockNum l # new_heights (currentBlockNum l) hs)),
            l\<lparr>currentBlockNum := last (currentBlockNum l # new_heights (currentBlockNum l) hs)\<rparr>,
            Waiting) \<and>
         length (fst (listenForBlocks (polls hs) l)) =
           length (new_heights (currentBlockNum l) hs)"
proof -
  let ?seen = "currentBlockNum l # new_heights (currentBlockNum l) hs"
  have "set (butlast ?seen) \<subseteq> set ?seen"
    by (blast dest: in_set_butlastD)
  also have "set ?seen \<subseteq> set (currentBlockNum l # hs)"
    using set_new_heights [of "currentBlockNum l" hs] by auto
  finally have "set (butlast ?seen) \<subseteq> set (currentBlockNum l # hs)" .
  with assms have "\<forall>h \<in> set (butlast ?seen). int64 h = uint h"
    by (auto simp: int64_small)
  then have "map int64 (butlast ?seen) = map uint (butlast ?seen)"
    by (simp cong: map_cong)
  then show ?thesis
    by (simp add: listenForBlocks_polls)
qed

text \<open>
  The run of the specification, started with 100 as the last observed height: two
  numbers are sent, 100 and 101.
\<close>

theorem listenForBlocks_new_blocks_witness:
  "(100 :: 64 word) < 2 ^ 63 \<and> (101 :: 64 word) < 2 ^ 63 \<and> (103 :: 64 word) < 2 ^ 63 \<and>
   listenForBlocks (polls [100, 100, 101, 101, 103])
       \<lparr>currentBlockNum = 100, currentAuction = None :: unit option\<rparr> =
     ([100, 101], \<lparr>currentBlockNum = 103, currentAuction = None\<rparr>, Waiting)"
proof -
  let ?l = "\<lparr>currentBlockNum = 100, currentAuction = None :: unit option\<rparr>"
  have small: "\<forall>h \<in> set (currentBlockNum ?l # [100, 100, 101, 101, 103]). h < 2 ^ 63"
    by simp
  from listenForBlocks_new_blocks [OF small] small show ?thesis
    by simp
qed

text \<open>
  The specification's statement fails on a listener made by \<^verbatim>\<open>NewListener\<close>, whose
  last observed height is 0: the first poll already reads a greater height, so the run
  of the specification sends three numbers, the first of them 0. It also fails at a
  last observed height of \<open>2 ^ 63\<close>, where the number sent is negative.
\<close>

theorem listenForBlocks_fresh_counterexample:
  "listenForBlocks (polls [100, 100, 101, 101, 103]) (NewListener :: unit Listener) =
     ([0, 100, 101], \<lparr>currentBlockNum = 103, currentAuction = None\<rparr>, Waiting) \<and>
   fst (listenForBlocks (polls [2 ^ 63 + 1])
          \<lparr>currentBlockNum = 2 ^ 63, currentAuction = None :: unit option\<rparr>) = [- (2 ^ 63)]"
  by (simp add: polls_def MustGetBlockNum_def NewListener_def int64_def)

text \<open>
  C8, as amended. When \<^verbatim>\<open>BlockNumber\<close> returns an error, the loop sends nothing more,
  polls no further and ends the whole process with \<^verbatim>\<open>os.Exit(1)\<close>; no error value
  reaches the caller of \<^verbatim>\<open>Start\<close>.
\<close>

theorem listenForBlocks_unreachable_exits:
  "listenForBlocks (TickerFired None # ts) l = ([], l, ProcessExit 1)"
  by (simp add: MustGetBlockNum_def)

text \<open>
  The height source fails at the first poll: the loop does not return to the code that
  started it, and the second poll, which would have read height 7, is never made.
\<close>

theorem listenForBlocks_unreachable_counterexample:
  "listenForBlocks [TickerFired None, TickerFired (Some 7)] (NewListener :: unit Listener) =
     ([], NewListener, ProcessExit 1) \<and>
   snd (snd (listenForBlocks [TickerFired None, TickerFired (Some 7)]
               (NewListener :: unit Listener))) \<noteq> Returned"
  by (simp add: MustGetBlockNum_def)

section \<open>Properties of the auction loop\<close>

text \<open>
  C9, as amended. When the watchdog fires before the auction's result arrives, the
  call ends the whole process with \<^verbatim>\<open>os.Exit(1)\<close>: no bid is sent on, and no later
  new-block signal is taken.
\<close>

theorem processNewBlocks_watchdog_exits:
  "processNewBlocks newRelayAuction (NewBlockSignal WatchdogFired # ss) l =
     ([AuctionStarted], l\<lparr>currentAuction := Some newRelayAuction\<rparr>, ProcessExit 1)"
  by (simp add: FacilitateRelayAuction_def)

text \<open>
  After a watchdog timeout for one block, the signal for the next block starts no
  auction, although that auction would have had a winner.
\<close>

theorem processNewBlocks_watchdog_counterexample:
  "processNewBlocks ()
     [NewBlockSignal WatchdogFired,
      NewBlockSignal (AuctionResult \<lparr>AmountWei = Some 5, L1Block = Some 11,
                                     Address = replicate 20 1, Signature = []\<rparr>)]
     NewListener =
   ([AuctionStarted], \<lparr>currentBlockNum = 0, currentAuction = Some ()\<rparr>, ProcessExit 1)"
  by (simp add: FacilitateRelayAuction_def NewListener_def)

section \<open>Properties of submitting and reading bids\<close>

lemma SubmitBid_no_auction:
  "currentAuction l = None \<Longrightarrow> SubmitBid sub bid l = (Error ''no auction in progress'', l)"
  by (simp add: SubmitBid_def)

lemma SubmitBid_after_auction:
  assumes "FacilitateRelayAuction new (AuctionResult won) l = (out, l', None)"
  shows "SubmitBid sub bid l' = (Error ''no auction in progress'', l')"
proof -
  from assms have "currentAuction l' = None"
    by (auto simp: FacilitateRelayAuction_def Let_def split: if_splits)
  then show ?thesis
    by (rule SubmitBid_no_auction)
qed

lemma big_Uint64_inj:
  assumes "0 \<le> t" and "t < 2 ^ 64" and "t \<noteq> uint w"
  shows "big_Uint64 t \<noteq> w"
proof
  assume "big_Uint64 t = w"
  then have "uint w = uint (word_of_int t :: 64 word)"
    using assms(1) by (simp add: big_Uint64_def)
  also have "\<dots> = t"
    using assms(1,2) by (simp add: uint_word_of_int take_bit_int_eq_self)
  finally show False
    using assms(3) by simp
qed

lemma SubmitBid_different_block:
  assumes "currentAuction l = Some a" and "L1Block bid = Some t"
    and "0 \<le> t" and "t < 2 ^ 64" and "t \<noteq> uint (currentBlockNum l)"
  shows "SubmitBid sub bid l = (Error ''bid is for a different block'', l)"
  using assms(1,2) big_Uint64_inj [OF assms(3,4,5)]
  by (simp add: SubmitBid_def)

lemma SubmitBid_rejected_unchanged:
  "fst (SubmitBid sub bid l) \<noteq> NilError \<Longrightarrow> snd (SubmitBid sub bid l) = l"
  by (auto simp: SubmitBid_def split: option.splits if_splits)

text \<open>
  C3. With no auction running, \<^verbatim>\<open>SubmitBid\<close> rejects every bid and changes nothing, and
  a bid for another block below \<open>2 ^ 64\<close> is rejected as well (the lemmas above). But
  the comparison takes \<^verbatim>\<open>bid.L1Block.Uint64()\<close>, the low 64 bits of the absolute value:
  during the auction for block 10, a bid for block \<open>2 ^ 64 + 10\<close> and a bid for block
  \<open>- 10\<close> are not rejected and reach the auction, and a bid whose block is the nil
  pointer panics.
\<close>

theorem SubmitBid_other_block_accepted:
  "(2 ^ 64 + 10 :: int) \<noteq> uint (10 :: 64 word) \<and>
   SubmitBid sub \<lparr>AmountWei = Some 1, L1Block = Some (2 ^ 64 + 10),
                  Address = addr, Signature = sig\<rparr>
       \<lparr>currentBlockNum = 10, currentAuction = Some a\<rparr> =
     (NilError,
      \<lparr>currentBlockNum = 10,
       currentAuction = Some (sub \<lparr>AmountWei = Some 1, L1Block = Some (2 ^ 64 + 10),
                                   Address = addr, Signature = sig\<rparr> a)\<rparr>) \<and>
   fst (SubmitBid sub \<lparr>AmountWei = Some 1, L1Block = Some (- 10),
                       Address = addr, Signature = sig\<rparr>
          \<lparr>currentBlockNum = 10, currentAuction = Some a\<rparr>) = NilError \<and>
   fst (SubmitBid sub \<lparr>AmountWei = Some 1, L1Block = None,
                       Address = addr, Signature = sig\<rparr>
          \<lparr>currentBlockNum = 10, currentAuction = Some a\<rparr>) = Panic"
  by (simp add: SubmitBid_def big_Uint64_def)

text \<open>
  C10. \<^verbatim>\<open>GetCurrentBid\<close> answers not found, with the zero bid, exactly when no auction
  is running; otherwise it answers found, with what the running auction gives as its
  current bid. The listener is left as it was.
\<close>

theorem GetCurrentBid_found:
  "(snd (fst (GetCurrentBid cur l)) = False \<longleftrightarrow> currentAuction l = None) \<and>
   (currentAuction l = None \<longrightarrow> fst (GetCurrentBid cur l) = (zeroBid, False)) \<and>
   (\<forall>a. currentAuction l = Some a \<longrightarrow> fst (GetCurrentBid cur l) = (cur a, True)) \<and>
   snd (GetCurrentBid cur l) = l"
  by (auto simp: GetCurrentBid_def split: option.splits)

theorem GetCurrentBid_found_witness:
  "currentAuction (NewListener :: SignedBid Listener) = None \<and>
   GetCurrentBid (\<lambda>a. a) (NewListener :: SignedBid Listener) = ((zeroBid, False), NewListener) \<and>
   GetCurrentBid (\<lambda>a. a)
       \<lparr>currentBlockNum = 10,
        currentAuction = Some \<lparr>AmountWei = Some 9, L1Block = Some 10,
                                Address = replicate 20 1, Signature = []\<rparr>\<rparr> =
     ((\<lparr>AmountWei = Some 9, L1Block = Some 10, Address = replicate 20 1, Signature = []\<rparr>,
       True),
      \<lparr>currentBlockNum = 10,
       currentAuction = Some \<lparr>AmountWei = Some 9, L1Block = Some 10,
                               Address = replicate 20 1, Signature = []\<rparr>\<rparr>)"
proof -
  let ?b = "\<lparr>AmountWei = Some 9, L1Block = Some 10, Address = replicate 20 1, Signature = []\<rparr>"
  let ?l = "\<lparr>currentBlockNum = 10, currentAuction = Some ?b\<rparr>"
  have none: "currentAuction (NewListener :: SignedBid Listener) = None"
    by (simp add: NewListener_def)
  have some: "currentAuction ?l = Some ?b"
    by simp
  from GetCurrentBid_found [of "\<lambda>a. a" "NewListener :: SignedBid Listener"] none
  have first: "GetCurrentBid (\<lambda>a. a) (NewListener :: SignedBid Listener) =
                 ((zeroBid, False), NewListener)"
    by (simp add: prod_eq_iff)
  from GetCurrentBid_found [of "\<lambda>a. a" ?l] some
  have "GetCurrentBid (\<lambda>a. a) ?l = ((?b, True), ?l)"
    by (simp add: prod_eq_iff)
  with none first show ?thesis
    by simp
qed

section \<open>Properties of the wire format\<close>


lemma lt10_cases:
  "d < 10 \<Longrightarrow> d = 0 \<or> d = 1 \<or> d = 2 \<or> d = 3 \<or> d = 4 \<or> d = 5 \<or> d = 6 \<or> d = 7 \<or> d = 8 \<or> d = (9::nat)"
  by arith

lemma lt16_cases:
  "d < 16 \<Longrightarrow> d = 0 \<or> d = 1 \<or> d = 2 \<or> d = 3 \<or> d = 4 \<or> d = 5 \<or> d = 6 \<or> d = 7 \<or> d = 8 \<or> d = 9
     \<or> d = 10 \<or> d = 11 \<or> d = 12 \<or> d = 13 \<or> d = 14 \<or> d = (15::nat)"
  by arith

lemma digit_char_props:
  assumes "d < 10"
  shows "is_digit (digit_char d)" and "digit_val (digit_char d) = d"
    and "digit_char d = CHR ''0'' \<longleftrightarrow> d = 0"
  using lt10_cases [OF assms]
  by (auto simp: digit_char_def is_digit_def digit_val_def)

lemma nat_decimal_digits: "list_all is_digit (nat_decimal n)"
proof (induction n rule: nat_decimal.induct)
  case (1 n)
  show ?case
  proof (cases "n < 10")
    case True
    then show ?thesis
      by (simp add: nat_decimal.simps [of n] digit_char_props)
  next
    case False
    with 1 show ?thesis
      by (simp add: nat_decimal.simps [of n] digit_char_props)
  qed
qed

lemma nat_decimal_nonempty: "nat_decimal n \<noteq> []"
  by (subst nat_decimal.simps) simp

lemma nat_decimal_value: "foldl (\<lambda>a c. 10 * a + digit_val c) 0 (nat_decimal n) = n"
proof (induction n rule: nat_decimal.induct)
  case (1 n)
  show ?case
  proof (cases "n < 10")
    case True
    then show ?thesis
      by (simp add: nat_decimal.simps [of n] digit_char_props)
  next
    case False
    with 1 show ?thesis
      by (simp add: nat_decimal.simps [of n] digit_char_props)
  qed
qed

lemma parse_nat_decimal: "parse_nat (nat_decimal n) = Some n"
  by (simp add: parse_nat_def nat_decimal_digits nat_decimal_nonempty nat_decimal_value)

lemma nat_decimal_leading:
  "\<exists>d ds. nat_decimal n = d # ds \<and> is_digit d \<and> list_all is_digit ds \<and>
          (d = CHR ''0'' \<longrightarrow> ds = [])"
proof (induction n rule: nat_decimal.induct)
  case (1 n)
  show ?case
  proof (cases "n < 10")
    case True
    then show ?thesis
      by (simp add: nat_decimal.simps [of n] digit_char_props)
  next
    case False
    with 1 obtain d ds where
      rec: "nat_decimal (n div 10) = d # ds" "is_digit d" "list_all is_digit ds"
        "d = CHR ''0'' \<longrightarrow> ds = []"
      by blast
    have "d \<noteq> CHR ''0''"
    proof
      assume "d = CHR ''0''"
      with rec have "nat_decimal (n div 10) = ''0''" by simp
      then have "parse_nat (nat_decimal (n div 10)) = Some 0"
        by (simp add: parse_nat_def is_digit_def digit_val_def)
      then have "n div 10 = 0" by (simp add: parse_nat_decimal)
      with False show False by simp
    qed
    with False rec show ?thesis
      by (simp add: nat_decimal.simps [of n] digit_char_props)
  qed
qed

lemma big_UnmarshalText_decimal: "big_UnmarshalText (int_decimal i) = Some i"
proof (cases "i < 0")
  case True
  then show ?thesis
    by (simp add: big_UnmarshalText_def int_decimal_def parse_nat_decimal)
next
  case False
  obtain d ds where "nat_decimal (nat i) = d # ds" and "is_digit d"
    using nat_decimal_leading [of "nat i"] by blast
  moreover from this have "d \<noteq> CHR ''-''"
    by (auto simp: is_digit_def)
  moreover have "parse_nat (nat_decimal (nat i)) = Some (nat i)"
    by (rule parse_nat_decimal)
  ultimately show ?thesis
    using False by (simp add: big_UnmarshalText_def int_decimal_def)
qed


subsection \<open>Scanning what the encoder writes\<close>

lemma takeWhile_digits:
  "list_all is_digit ds \<Longrightarrow> \<not> is_digit c \<Longrightarrow> takeWhile is_digit (ds @ c # r) = ds"
  by (induction ds) auto

lemma dropWhile_digits:
  "list_all is_digit ds \<Longrightarrow> \<not> is_digit c \<Longrightarrow> dropWhile is_digit (ds @ c # r) = c # r"
  by (induction ds) auto

lemma lex_frac_done:
  "no_number_char c \<Longrightarrow> lex_frac acc (c # r) = Some (acc, c # r)"
  by (simp add: lex_frac_def lex_exp_def no_number_char_def)

lemma lex_number_nat_decimal:
  assumes "no_number_char c"
  shows "lex_number (nat_decimal n @ c # r) = Some (nat_decimal n, c # r)"
proof -
  obtain d ds where n: "nat_decimal n = d # ds" and d: "is_digit d"
    and ds: "list_all is_digit ds" and zero: "d = CHR ''0'' \<longrightarrow> ds = []"
    using nat_decimal_leading [of n] by blast
  from d have nominus: "d \<noteq> CHR ''-''"
    by (auto simp: is_digit_def)
  from assms have c: "\<not> is_digit c"
    by (simp add: no_number_char_def)
  show ?thesis
  proof (cases "d = CHR ''0''")
    case True
    with zero n nominus assms show ?thesis
      by (simp add: lex_number_def lex_frac_done)
  next
    case False
    with n nominus d ds c assms show ?thesis
      by (simp add: lex_number_def takeWhile_digits dropWhile_digits lex_frac_done)
  qed
qed

lemma lex_number_int_decimal:
  assumes "no_number_char c"
  shows "lex_number (int_decimal i @ c # r) = Some (int_decimal i, c # r)"
proof (cases "i < 0")
  case False
  with lex_number_nat_decimal [OF assms] show ?thesis
    by (simp add: int_decimal_def)
next
  case True
  obtain d ds where n: "nat_decimal (nat (- i)) = d # ds" and d: "is_digit d"
    and ds: "list_all is_digit ds" and zero: "d = CHR ''0'' \<longrightarrow> ds = []"
    using nat_decimal_leading [of "nat (- i)"] by blast
  from assms have c: "\<not> is_digit c"
    by (simp add: no_number_char_def)
  show ?thesis
  proof (cases "d = CHR ''0''")
    case z: True
    with zero n assms True show ?thesis
      by (simp add: int_decimal_def lex_number_def lex_frac_done)
  next
    case False
    with n d ds c assms True show ?thesis
      by (simp add: int_decimal_def lex_number_def takeWhile_digits dropWhile_digits lex_frac_done)
  qed
qed

lemma int_decimal_first:
  "\<exists>d ds. int_decimal i = d # ds \<and> (d = CHR ''-'' \<or> is_digit d)"
  using nat_decimal_leading [of "nat i"] nat_decimal_leading [of "nat (- i)"]
  by (auto simp: int_decimal_def)

lemma lex_int_decimal:
  assumes "no_number_char c"
  shows "json_tokens (int_decimal i @ c # r) = map_option ((#) (TNumber (int_decimal i))) (json_tokens (c # r))"
proof -
  obtain d ds where i: "int_decimal i = d # ds" and d: "d = CHR ''-'' \<or> is_digit d"
    using int_decimal_first [of i] by blast
  have "lex_number (d # ds @ c # r) = Some (d # ds, c # r)"
    using lex_number_int_decimal [OF assms, of i r] i by simp
  moreover from d have "\<not> is_space d" and "d \<noteq> CHR ''{''" and "d \<noteq> CHR ''}''" and "d \<noteq> CHR ''[''"
    and "d \<noteq> CHR '']''" and "d \<noteq> CHR '':''" and "d \<noteq> CHR '',''" and "d \<noteq> CHR 0x22"
    by (auto simp: is_digit_def is_space_def)
  ultimately show ?thesis
    using d i by (simp add: json_tokens.simps)
qed

lemma lex_string_plain:
  "list_all plain s \<Longrightarrow> lex_string (s @ CHR 0x22 # rest) = Some (s, rest)"
  by (induction s) (auto simp: plain_def)

lemma lex_json_quote:
  "list_all plain s \<Longrightarrow> json_tokens (json_quote s @ rest) = map_option ((#) (TString s)) (json_tokens rest)"
  by (simp add: json_quote_def json_tokens.simps is_space_def lex_string_plain)

lemma lex_punct:
  "json_tokens (CHR ''{'' # cs) = map_option ((#) TLBrace) (json_tokens cs)"
  "json_tokens (CHR ''}'' # cs) = map_option ((#) TRBrace) (json_tokens cs)"
  "json_tokens (CHR '':'' # cs) = map_option ((#) TColon) (json_tokens cs)"
  "json_tokens (CHR '','' # cs) = map_option ((#) TComma) (json_tokens cs)"
  by (simp_all add: json_tokens.simps is_space_def)

lemma lex_null:
  "json_tokens (''null'' @ rest) = map_option ((#) TNull) (json_tokens rest)"
  by (simp add: json_tokens.simps is_space_def is_digit_def)

subsection \<open>Hexadecimal text\<close>

lemma hex_char_props:
  assumes "d < 16"
  shows "is_hex (hex_char d)" and "fromHexChar (hex_char d) = d" and "plain (hex_char d)"
  using lt16_cases [OF assms]
  by (auto simp: hex_char_def is_hex_def is_digit_def fromHexChar_def plain_def)

lemma hex_byte_decode:
  "hex_Decode (hex_byte b @ cs) = map_option ((#) b) (hex_Decode cs)"
proof -
  have hi: "unat b div 16 < 16"
    using unsigned_less [of b, where 'a = nat] by simp
  have lo: "unat b mod 16 < 16"
    by simp
  have "word_of_nat (16 * (unat b div 16) + unat b mod 16) = b"
    by simp
  with hi lo show ?thesis
    by (simp add: hex_byte_def hex_char_props)
qed

lemma hex_Decode_Encode: "hex_Decode (hex_Encode bs) = Some bs"
  by (induction bs) (simp_all add: hex_Encode_def hex_byte_decode)

lemma length_hex_Encode: "length (hex_Encode bs) = 2 * length bs"
  by (induction bs) (simp_all add: hex_Encode_def hex_byte_def)

lemma plain_hex_Encode: "list_all plain (hex_Encode bs)"
proof (induction bs)
  case Nil
  show ?case by (simp add: hex_Encode_def)
next
  case (Cons b bs)
  have "unat b div 16 < 16"
    using unsigned_less [of b, where 'a = nat] by simp
  with Cons show ?case
    by (simp add: hex_Encode_def hex_byte_def hex_char_props)
qed

lemma plain_MarshalText: "list_all plain (hexutil_MarshalText bs)"
  by (simp add: hexutil_MarshalText_def plain_hex_Encode plain_def)

lemma checkText_MarshalText: "checkText (hexutil_MarshalText bs) = Inr (hex_Encode bs)"
  by (simp add: checkText_def hexutil_MarshalText_def has0xPrefix_def length_hex_Encode)

lemma Bytes_UnmarshalText_MarshalText: "Bytes_UnmarshalText (hexutil_MarshalText bs) = Inr bs"
  by (simp add: Bytes_UnmarshalText_def checkText_MarshalText hex_Decode_Encode)

lemma UnmarshalFixedText_MarshalText:
  "length bs = n \<Longrightarrow> UnmarshalFixedText n (hexutil_MarshalText bs) = Inr bs"
  by (simp add: UnmarshalFixedText_def checkText_MarshalText hex_Decode_Encode length_hex_Encode)


subsection \<open>The round trip\<close>

lemma tokens_big_MarshalJSON:
  "json_tokens (big_MarshalJSON x @ CHR '','' # r) =
     map_option ((#) (big_token x)) (json_tokens (CHR '','' # r))"
proof (cases x)
  case None
  then show ?thesis
    using lex_null [of "CHR '','' # r"] by (simp add: big_MarshalJSON_def big_token_def)
next
  case (Some i)
  have "no_number_char (CHR '','')"
    by (simp add: no_number_char_def is_digit_def)
  from lex_int_decimal [OF this] Some show ?thesis
    by (simp add: big_MarshalJSON_def big_token_def)
qed

lemma plain_names:
  "list_all plain ''amountWei''" "list_all plain ''l1Block''"
  "list_all plain ''address''" "list_all plain ''signature''"
  by (simp_all add: plain_def)

lemma tokens_EncodeSignedBid:
  "json_tokens (EncodeSignedBid bid) =
     Some [TLBrace, TString ''amountWei'', TColon, big_token (AmountWei bid), TComma,
           TString ''l1Block'', TColon, big_token (L1Block bid), TComma,
           TString ''address'', TColon, TString (hexutil_MarshalText (Address bid)), TComma,
           TString ''signature'', TColon, TString (hexutil_MarshalText (Signature bid)),
           TRBrace]"
  by (simp add: EncodeSignedBid_def lex_punct lex_json_quote plain_def plain_MarshalText
      tokens_big_MarshalJSON json_tokens.simps(1))

lemma begin_value_big_token: "begin_value (big_token x) st = put_value (big_json x) st"
  by (cases x) (simp_all add: big_token_def big_json_def)

lemma step_big_token: "step BeginValue (big_token x) st = put_value (big_json x) st"
  by (simp add: begin_value_big_token)

lemma parse_EncodeSignedBid:
  "json_parse BeginValue []
     [TLBrace, TString ''amountWei'', TColon, big_token a, TComma,
      TString ''l1Block'', TColon, big_token t, TComma,
      TString ''address'', TColon, TString addr, TComma,
      TString ''signature'', TColon, TString sig, TRBrace] =
   Some (JObject [(''amountWei'', big_json a), (''l1Block'', big_json t),
                  (''address'', JString addr), (''signature'', JString sig)])"
  by (simp add: begin_value_big_token maxNestingDepth_def)

lemma json_scan_EncodeSignedBid:
  "json_scan (EncodeSignedBid bid) =
     Some (JObject [(''amountWei'', big_json (AmountWei bid)), (''l1Block'', big_json (L1Block bid)),
                    (''address'', JString (hexutil_MarshalText (Address bid))),
                    (''signature'', JString (hexutil_MarshalText (Signature bid)))])"
  by (simp only: json_scan_def tokens_EncodeSignedBid parse_EncodeSignedBid option.case)

lemma field_of_names:
  "field_of ''amountWei'' = Some FAmountWei" "field_of ''l1Block'' = Some FL1Block"
  "field_of ''address'' = Some FAddress" "field_of ''signature'' = Some FSignature"
  by (simp_all add: field_of_def fold_name_def fold_ascii_def)

lemma big_UnmarshalJSON_big_json: "big_UnmarshalJSON (big_json x) = Inr x"
  by (cases x) (simp_all add: big_UnmarshalJSON_def big_json_def big_UnmarshalText_decimal)

lemma decode_object_EncodeSignedBid:
  assumes "length addr = 20"
  shows "decode_object
           [(''amountWei'', big_json a), (''l1Block'', big_json t),
            (''address'', JString (hexutil_MarshalText addr)),
            (''signature'', JString (hexutil_MarshalText sig))] bid =
         Inr (bid\<lparr>AmountWei := a, L1Block := t, Address := addr, Signature := sig\<rparr>)"
  using assms
  by (simp add: field_of_names big_UnmarshalJSON_big_json Address_UnmarshalJSON_def
      Bytes_UnmarshalJSON_def UnmarshalFixedText_MarshalText Bytes_UnmarshalText_MarshalText)

text \<open>
  C5. Decoding the encoding of a bid gives the bid back, with all four fields as they
  were: for every amount and block, nil and negative ones included, every address of 20
  bytes and every signature.
\<close>

theorem DecodeSignedBid_EncodeSignedBid:
  assumes "address_ok bid"
  shows "DecodeSignedBid (EncodeSignedBid bid) = Inr bid"
proof -
  from assms have len: "length (Address bid) = 20"
    by (simp add: address_ok_def)
  have "json_Unmarshal (EncodeSignedBid bid) =
          Inr (zeroBid\<lparr>AmountWei := AmountWei bid, L1Block := L1Block bid,
                       Address := Address bid, Signature := Signature bid\<rparr>)"
    by (simp only: json_Unmarshal_def json_scan_EncodeSignedBid option.case json.case
        decode_object_EncodeSignedBid [OF len])
  then show ?thesis
    by (simp add: DecodeSignedBid_def zeroBid_def)
qed

theorem DecodeSignedBid_EncodeSignedBid_witness:
  "address_ok \<lparr>AmountWei = Some 5, L1Block = Some 10, Address = replicate 20 7,
               Signature = [1, 2, 255]\<rparr> \<and>
   EncodeSignedBid \<lparr>AmountWei = Some 5, L1Block = Some 10, Address = replicate 20 7,
                    Signature = [1, 2, 255]\<rparr> =
     ''{'' @ json_quote ''amountWei'' @ '':5,'' @ json_quote ''l1Block'' @ '':10,'' @
     json_quote ''address'' @ '':'' @ json_quote ''0x0707070707070707070707070707070707070707'' @
     '','' @ json_quote ''signature'' @ '':'' @ json_quote ''0x0102ff'' @ ''}'' \<and>
   DecodeSignedBid
     (EncodeSignedBid \<lparr>AmountWei = Some 5, L1Block = Some 10, Address = replicate 20 7,
                       Signature = [1, 2, 255]\<rparr>) =
     Inr \<lparr>AmountWei = Some 5, L1Block = Some 10, Address = replicate 20 7,
          Signature = [1, 2, 255]\<rparr>"
proof -
  let ?b = "\<lparr>AmountWei = Some 5, L1Block = Some 10, Address = replicate 20 7,
             Signature = [1, 2, 255]\<rparr>"
  have ok: "address_ok ?b"
    by (simp add: address_ok_def)
  have wire: "EncodeSignedBid ?b =
     ''{'' @ json_quote ''amountWei'' @ '':5,'' @ json_quote ''l1Block'' @ '':10,'' @
     json_quote ''address'' @ '':'' @ json_quote ''0x0707070707070707070707070707070707070707'' @
     '','' @ json_quote ''signature'' @ '':'' @ json_quote ''0x0102ff'' @ ''}''"
    by code_simp
  from ok wire DecodeSignedBid_EncodeSignedBid [OF ok] show ?thesis
    by (simp only: simp_thms)
qed

subsection \<open>What the decoder accepts\<close>

lemma parse_nat_Some_iff: "(\<exists>n. parse_nat ds = Some n) \<longleftrightarrow> ds \<noteq> [] \<and> list_all is_digit ds"
  by (simp add: parse_nat_def)

lemma big_UnmarshalText_Some_iff: "(\<exists>i. big_UnmarshalText raw = Some i) \<longleftrightarrow> int_literal raw"
proof (cases raw)
  case Nil
  then show ?thesis
    by (simp add: big_UnmarshalText_def int_literal_def)
next
  case (Cons c cs)
  show ?thesis
  proof (cases "c = CHR ''-''")
    case True
    with Cons parse_nat_Some_iff [of cs] show ?thesis
      by (auto simp: big_UnmarshalText_def int_literal_def)
  next
    case False
    with Cons parse_nat_Some_iff [of raw] show ?thesis
      by (auto simp: big_UnmarshalText_def int_literal_def)
  qed
qed

lemma big_UnmarshalJSON_Inr_iff:
  "(\<exists>x. big_UnmarshalJSON v = Inr x) \<longleftrightarrow>
     (case v of JNull \<Rightarrow> True | JNumber raw \<Rightarrow> int_literal raw | _ \<Rightarrow> False)"
proof (cases v)
  case (JNumber raw)
  with big_UnmarshalText_Some_iff [of raw] show ?thesis
    by (auto simp: big_UnmarshalJSON_def split: option.splits)
qed (simp_all add: big_UnmarshalJSON_def)

lemma hex_Decode_Some_iff:
  "(\<exists>bs. hex_Decode s = Some bs) \<longleftrightarrow> even (length s) \<and> list_all is_hex s"
  by (induction s rule: hex_Decode.induct) auto

lemma hex_Decode_length: "hex_Decode s = Some bs \<Longrightarrow> length s = 2 * length bs"
  by (induction s arbitrary: bs rule: hex_Decode.induct) (auto split: if_splits)

lemma has0xPrefix_length: "has0xPrefix raw \<Longrightarrow> 2 \<le> length raw"
  by (auto simp: has0xPrefix_def split: list.splits)

lemma Bytes_UnmarshalText_Inr_iff:
  "(\<exists>bs. Bytes_UnmarshalText raw = Inr bs) \<longleftrightarrow> raw = [] \<or> hex_text raw"
proof (cases "raw = []")
  case True
  then show ?thesis
    by (simp add: Bytes_UnmarshalText_def checkText_def)
next
  case False
  show ?thesis
  proof (cases "has0xPrefix raw")
    case True
    with False hex_Decode_Some_iff [of "drop 2 raw"] has0xPrefix_length [OF True] show ?thesis
      by (auto simp: Bytes_UnmarshalText_def checkText_def hex_text_def split: option.splits)
  next
    case nop: False
    with False show ?thesis
      by (simp add: Bytes_UnmarshalText_def checkText_def hex_text_def)
  qed
qed

lemma UnmarshalFixedText_Inr_iff:
  "(\<exists>bs. UnmarshalFixedText 20 raw = Inr bs) \<longleftrightarrow> hex_text raw \<and> length raw = 42"
proof (cases "raw = []")
  case True
  then show ?thesis
    by (simp add: UnmarshalFixedText_def checkText_def)
next
  case False
  show ?thesis
  proof (cases "has0xPrefix raw")
    case True
    have len: "length raw = 42 \<longleftrightarrow> length raw - 2 = 40"
      using has0xPrefix_length [OF True] by arith
    have half: "even (length raw) \<Longrightarrow> (length raw - 2) div 2 = 20 \<longleftrightarrow> length raw - 2 = 40"
      using has0xPrefix_length [OF True] by presburger
    from True False hex_Decode_Some_iff [of "drop 2 raw"] has0xPrefix_length [OF True] len half
    show ?thesis
      by (auto simp: UnmarshalFixedText_def checkText_def hex_text_def split: option.splits)
  next
    case nop: False
    with False show ?thesis
      by (simp add: UnmarshalFixedText_def checkText_def hex_text_def)
  qed
qed

lemma UnmarshalFixedText_length:
  assumes "UnmarshalFixedText n raw = Inr bs"
  shows "length bs = n"
proof -
  from assms obtain r where r: "checkText raw = Inr r" "length r div 2 = n" "hex_Decode r = Some bs"
    by (auto simp: UnmarshalFixedText_def split: sum.splits if_splits option.splits)
  from hex_Decode_length [OF r(3)] r(2) show ?thesis
    by simp
qed

lemma set_field_Inr_iff: "(\<exists>bid'. set_field f v bid = Inr bid') \<longleftrightarrow> field_accepts f v"
proof (cases f)
  case FAmountWei
  with big_UnmarshalJSON_Inr_iff [of v] show ?thesis
    by (auto split: sum.splits)
next
  case FL1Block
  with big_UnmarshalJSON_Inr_iff [of v] show ?thesis
    by (auto split: sum.splits)
next
  case FAddress
  show ?thesis
  proof (cases v)
    case (JString raw)
    with FAddress UnmarshalFixedText_Inr_iff [of raw] show ?thesis
      by (auto simp: Address_UnmarshalJSON_def split: sum.splits)
  qed (simp_all add: FAddress Address_UnmarshalJSON_def)
next
  case FSignature
  show ?thesis
  proof (cases v)
    case (JString raw)
    with FSignature Bytes_UnmarshalText_Inr_iff [of raw] show ?thesis
      by (auto simp: Bytes_UnmarshalJSON_def split: sum.splits)
  qed (simp_all add: FSignature Bytes_UnmarshalJSON_def)
qed

lemma decode_object_Inr_iff:
  "(\<exists>bid'. decode_object ms bid = Inr bid') \<longleftrightarrow> list_all member_ok ms"
proof (induction ms arbitrary: bid)
  case Nil
  show ?case by simp
next
  case (Cons m ms)
  obtain key v where m: "m = (key, v)"
    by (cases m)
  show ?case
  proof (cases "field_of key")
    case None
    with m Cons.IH [of bid] show ?thesis
      by (simp add: member_ok_def)
  next
    case (Some f)
    show ?thesis
    proof (cases "set_field f v bid")
      case (Inl err)
      with set_field_Inr_iff [of f v bid] have "\<not> field_accepts f v"
        by auto
      with m Some Inl show ?thesis
        by (simp add: member_ok_def)
    next
      case (Inr bid1)
      with set_field_Inr_iff [of f v bid] have "field_accepts f v"
        by auto
      with m Some Inr Cons.IH [of bid1] show ?thesis
        by (simp add: member_ok_def)
    qed
  qed
qed

text \<open>
  C7, as amended. Decoding succeeds exactly on the texts that \<open>decode_ok\<close> describes,
  and fails with an error on every other text: on a text that is not one JSON value, on
  a JSON value that is neither an object nor \<^verbatim>\<open>null\<close>, and on an object with a member
  for a field whose value is not accepted for that field. So an amount or a block that
  is not an integer literal makes decoding fail, and so does an address that is not
  exactly 20 bytes of hexadecimal text. A field that is missing does not, a negative
  number does not, and a signature may have any number of bytes.
\<close>

theorem DecodeSignedBid_accepts:
  "(\<exists>bid. DecodeSignedBid text = Inr bid) \<longleftrightarrow> decode_ok text"
proof (cases "json_scan text")
  case None
  then show ?thesis
    by (simp add: DecodeSignedBid_def json_Unmarshal_def decode_ok_def)
next
  case (Some v)
  show ?thesis
  proof (cases v)
    case (JObject ms)
    with Some decode_object_Inr_iff [of ms zeroBid] show ?thesis
      by (auto simp: DecodeSignedBid_def json_Unmarshal_def decode_ok_def split: sum.splits)
  qed (simp_all add: Some DecodeSignedBid_def json_Unmarshal_def decode_ok_def)
qed

text \<open>
  The specification's statement fails. The empty object has none of the four fields and decodes
  to the zero bid, whose amount and block are nil pointers and whose signature is empty.
  An object with a negative amount, a negative block and a signature of one byte
  decodes with no error.
\<close>

theorem DecodeSignedBid_lenient_counterexample:
  "DecodeSignedBid ''{}'' = Inr zeroBid \<and>
   DecodeSignedBid
     (''{'' @ json_quote ''amountWei'' @ '':-5,'' @ json_quote ''l1Block'' @ '':-1,'' @
      json_quote ''address'' @ '':'' @ json_quote ''0x0000000000000000000000000000000000000000'' @
      '','' @ json_quote ''signature'' @ '':'' @ json_quote ''0x01'' @ ''}'') =
   Inr \<lparr>AmountWei = Some (- 5), L1Block = Some (- 1), Address = zeroAddr, Signature = [1]\<rparr>"
  by code_simp

end
